theory Spec2Isabelle
  imports Main "HOL-Library.Word"
begin

section \<open>The blocks of timestampvm (block.go)\<close>

text \<open>
  The Go code works on pointers: a \<^verbatim>\<open>*TimeBlock\<close> is the receiver of every method, each
  block holds a \<^verbatim>\<open>*VM\<close>, and the VM's map \<^verbatim>\<open>verifiedBlocks\<close> holds \<^verbatim>\<open>*TimeBlock\<close>
  values. The model therefore has an explicit store: a world maps addresses to block
  structs and to VM structs, a pointer is an address, and a nil pointer is \<open>None\<close>.
  Every address holds a struct (Go zero-initialises memory), so there is no dangling
  pointer, as in Go.
\<close>

subsection \<open>Data\<close>

type_synonym byte = "8 word"

text \<open>\<^verbatim>\<open>ids.ID\<close> is an array of 32 bytes, that is 256 bits.\<close>

type_synonym ids_ID = "256 word"

type_synonym addr = nat
type_synonym vaddr = nat

text \<open>\<^verbatim>\<open>choices.Status\<close>; \<open>Unknown\<close> is its zero value.\<close>

datatype choices_Status = Unknown | Processing | Rejected | Accepted

text \<open>
  The errors of block.go. \<open>errHeight expected found\<close> is the value built by
  \<^verbatim>\<open>fmt.Errorf\<close> in \<^verbatim>\<open>Verify\<close>; \<open>errStore n\<close> stands for an error value that a method
  of the store returned (\<^verbatim>\<open>Accept\<close> and \<^verbatim>\<open>Reject\<close> pass it on as it is).
\<close>

datatype error =
    errTimestampTooEarly
  | errDatabaseGet
  | errTimestampTooLate
  | errBlockNil
  | errHeight "64 word" "64 word"
  | errStore nat

text \<open>
  The struct \<^verbatim>\<open>TimeBlock\<close>. \<^verbatim>\<open>Hght\<close> is a \<^verbatim>\<open>uint64\<close> and \<^verbatim>\<open>Tmstmp\<close> an \<^verbatim>\<open>int64\<close>
  (read with \<open>sint\<close>). The field \<^verbatim>\<open>id\<close> is called \<open>id'\<close> here.
\<close>

record TimeBlock =
  PrntID :: ids_ID
  Hght :: "64 word"
  Tmstmp :: "64 word"
  Dt :: "byte list"
  id' :: ids_ID
  bytes :: "byte list"
  status :: choices_Status
  vm :: "vaddr option"

subsection \<open>The store behind \<^verbatim>\<open>vm.state\<close>\<close>

text \<open>
  Modelled from the spec: the interface \<^verbatim>\<open>State\<close> behind \<^verbatim>\<open>b.vm.state\<close> is declared
  outside block.go. The spec gives its operations as
  \<^verbatim>\<open>PutBlock(Block) -> ok | error\<close>, \<^verbatim>\<open>SetLastAccepted(id) -> ok | error\<close> and
  \<^verbatim>\<open>Commit() -> ok | error\<close>, and says nothing on when one of them fails. The model
  keeps what block.go can observe and cause: the sequence of calls made with the result
  of each, the last-accepted pointer (the id given to the latest successful
  \<^verbatim>\<open>SetLastAccepted\<close>), and a script of the results the store gives to the calls to
  come (\<open>None\<close> is success; an exhausted script is success), so that every pattern of
  failures is an input.
\<close>

datatype store_call =
    PutBlockCall TimeBlock
  | SetLastAcceptedCall ids_ID
  | CommitCall

record State =
  lastAccepted :: "ids_ID option"
  calls :: "(store_call \<times> error option) list"
  script :: "error option list"

text \<open>Modelled from the spec: one call of the store, which takes its result from the script.\<close>

definition store_do :: "store_call \<Rightarrow> State \<Rightarrow> error option \<times> State" where
  "store_do c st =
     (case script st of
        [] \<Rightarrow> (None, st\<lparr>calls := calls st @ [(c, None)]\<rparr>)
      | r # rs \<Rightarrow> (r, st\<lparr>calls := calls st @ [(c, r)], script := rs\<rparr>))"

text \<open>Modelled from the spec: \<^verbatim>\<open>PutBlock(Block) -> ok | error\<close>, given the struct as it is at the call.\<close>

definition PutBlock :: "TimeBlock \<Rightarrow> State \<Rightarrow> error option \<times> State" where
  "PutBlock b st = store_do (PutBlockCall b) st"

text \<open>Modelled from the spec: \<^verbatim>\<open>SetLastAccepted(id) -> ok | error\<close>; a successful call moves the pointer.\<close>

definition SetLastAccepted :: "ids_ID \<Rightarrow> State \<Rightarrow> error option \<times> State" where
  "SetLastAccepted i st =
     (case store_do (SetLastAcceptedCall i) st of
        (None, st') \<Rightarrow> (None, st'\<lparr>lastAccepted := Some i\<rparr>)
      | (Some e, st') \<Rightarrow> (Some e, st'))"

text \<open>Modelled from the spec: \<^verbatim>\<open>Commit() -> ok | error\<close>.\<close>

definition Commit :: "State \<Rightarrow> error option \<times> State" where
  "Commit st = store_do CommitCall st"

subsection \<open>The VM and the world\<close>

text \<open>
  Of the struct \<^verbatim>\<open>VM\<close> (declared outside block.go) the code uses the fields \<^verbatim>\<open>state\<close>
  and \<^verbatim>\<open>verifiedBlocks\<close>, a map from ids to block pointers, and the method
  \<^verbatim>\<open>GetBlock\<close>. The map and the state of a VM are taken to be non-nil.
\<close>

record VM =
  state :: State
  verifiedBlocks :: "ids_ID \<rightharpoonup> addr"

record world =
  blocks :: "addr \<Rightarrow> TimeBlock"
  vms :: "vaddr \<Rightarrow> VM"

text \<open>
  What a Go call does: it panics (a nil pointer is dereferenced) or it returns its
  \<^verbatim>\<open>error\<close>, where \<open>None\<close> is Go's nil error. The world after the call is returned
  beside it in both cases, since the writes made before a panic stay.
\<close>

datatype result = Panics | Returns "error option"

text \<open>
  \<^verbatim>\<open>VM.GetBlock\<close> is outside block.go and is a parameter of \<^verbatim>\<open>Verify\<close>: a function of
  the world, the VM pointer it is called on (which may be nil) and the id, which
  panics, returns an error or returns a block.
\<close>

datatype lookup = LookupPanics | LookupFails | Found TimeBlock

type_synonym getblock = "world \<Rightarrow> vaddr option \<Rightarrow> ids_ID \<Rightarrow> lookup"

definition put_block :: "addr \<Rightarrow> TimeBlock \<Rightarrow> world \<Rightarrow> world" where
  "put_block a blk w = w\<lparr>blocks := (blocks w)(a := blk)\<rparr>"

definition put_state :: "vaddr \<Rightarrow> State \<Rightarrow> world \<Rightarrow> world" where
  "put_state v st w = w\<lparr>vms := (vms w)(v := (vms w v)\<lparr>state := st\<rparr>)\<rparr>"

definition put_verified :: "vaddr \<Rightarrow> (ids_ID \<rightharpoonup> addr) \<Rightarrow> world \<Rightarrow> world" where
  "put_verified v m w = w\<lparr>vms := (vms w)(v := (vms w v)\<lparr>verifiedBlocks := m\<rparr>)\<rparr>"

subsection \<open>The accessors\<close>

text \<open>
  \<^verbatim>\<open>ID\<close>, \<^verbatim>\<open>Parent\<close>, \<^verbatim>\<open>Height\<close>, \<^verbatim>\<open>Status\<close>, \<^verbatim>\<open>Bytes\<close> and \<^verbatim>\<open>Data\<close> read one field.
  \<^verbatim>\<open>Timestamp\<close> returns \<^verbatim>\<open>time.Unix(b.Tmstmp, 0)\<close>, of which \<^verbatim>\<open>Verify\<close> only takes
  \<^verbatim>\<open>Unix()\<close>, the signed number of seconds again.
\<close>

definition ID :: "TimeBlock \<Rightarrow> ids_ID" where
  "ID b = id' b"

definition Parent :: "TimeBlock \<Rightarrow> ids_ID" where
  "Parent b = PrntID b"

definition Height :: "TimeBlock \<Rightarrow> 64 word" where
  "Height b = Hght b"

definition Timestamp_Unix :: "TimeBlock \<Rightarrow> int" where
  "Timestamp_Unix b = sint (Tmstmp b)"

definition Status :: "TimeBlock \<Rightarrow> choices_Status" where
  "Status b = status b"

definition Bytes :: "TimeBlock \<Rightarrow> byte list" where
  "Bytes b = bytes b"

definition Data :: "TimeBlock \<Rightarrow> byte list" where
  "Data b = Dt b"

text \<open>\<^verbatim>\<open>SetStatus\<close> writes the field through the pointer.\<close>

definition SetStatus :: "addr \<Rightarrow> choices_Status \<Rightarrow> world \<Rightarrow> world" where
  "SetStatus a s w = put_block a ((blocks w a)\<lparr>status := s\<rparr>) w"

subsection \<open>Verify\<close>

text \<open>
  \<open>now\<close> is \<^verbatim>\<open>time.Now().Unix()\<close>, the clock's reading in seconds; a clock's reading is far
  from the limits of \<^verbatim>\<open>int64\<close>, so that \<^verbatim>\<open>time.Now().Add(time.Hour).Unix()\<close> is
  \<open>now + 3600\<close>. The expected height is computed in \<^verbatim>\<open>uint64\<close> and wraps. The last
  statement writes into the map of \<^verbatim>\<open>b.vm\<close> and panics when that pointer is nil.
\<close>

definition Verify :: "getblock \<Rightarrow> int \<Rightarrow> addr option \<Rightarrow> world \<Rightarrow> result \<times> world" where
  "Verify GetBlock now b w =
     (case b of
        None \<Rightarrow> (Returns (Some errBlockNil), w)
      | Some a \<Rightarrow>
          (let blk = blocks w a;
               parentID = Parent blk
           in case GetBlock w (vm blk) parentID of
                LookupPanics \<Rightarrow> (Panics, w)
              | LookupFails \<Rightarrow> (Returns (Some errDatabaseGet), w)
              | Found parent \<Rightarrow>
                  (let expectedHeight = Height parent + 1
                   in if expectedHeight \<noteq> Hght blk
                        then (Returns (Some (errHeight expectedHeight (Hght blk))), w)
                      else if Timestamp_Unix blk < Timestamp_Unix parent
                        then (Returns (Some errTimestampTooEarly), w)
                      else if Timestamp_Unix blk \<ge> now + 3600
                        then (Returns (Some errTimestampTooLate), w)
                      else (case vm blk of
                              None \<Rightarrow> (Panics, w)
                            | Some v \<Rightarrow>
                                (Returns None,
                                 put_verified v ((verifiedBlocks (vms w v))(id' blk \<mapsto> a)) w)))))"

subsection \<open>Initialize\<close>

text \<open>
  \<^verbatim>\<open>hashing.ComputeHash256Array\<close> belongs to another module and is the parameter
  \<open>ComputeHash256Array\<close>. The first assignment writes through the receiver and panics
  when it is nil. The Go method returns nothing: \<open>Returns None\<close> is its normal return.
\<close>

definition Initialize ::
  "(byte list \<Rightarrow> ids_ID) \<Rightarrow> addr option \<Rightarrow> byte list \<Rightarrow> choices_Status \<Rightarrow> vaddr option
     \<Rightarrow> world \<Rightarrow> result \<times> world" where
  "Initialize ComputeHash256Array b bytes_arg status_arg vm_arg w =
     (case b of
        None \<Rightarrow> (Panics, w)
      | Some a \<Rightarrow>
          (let b1 = (blocks w a)\<lparr>vm := vm_arg\<rparr>;
               b2 = b1\<lparr>bytes := bytes_arg\<rparr>;
               b3 = b2\<lparr>id' := ComputeHash256Array (bytes b2)\<rparr>;
               b4 = b3\<lparr>status := status_arg\<rparr>
           in (Returns None, put_block a b4 w)))"

subsection \<open>Accept and Reject\<close>

text \<open>
  \<^verbatim>\<open>Accept\<close> first writes the status through the receiver (a panic when it is nil), then
  reads \<^verbatim>\<open>b.vm.state\<close> (a panic when \<^verbatim>\<open>b.vm\<close> is nil, with the status already
  written). Each error of the store is returned at once.
\<close>

definition Accept :: "addr option \<Rightarrow> world \<Rightarrow> result \<times> world" where
  "Accept b w =
     (case b of
        None \<Rightarrow> (Panics, w)
      | Some a \<Rightarrow>
          (let w1 = SetStatus a Accepted w;
               blkID = ID (blocks w1 a)
           in case vm (blocks w1 a) of
                None \<Rightarrow> (Panics, w1)
              | Some v \<Rightarrow>
                  (case PutBlock (blocks w1 a) (state (vms w1 v)) of
                     (Some err, st1) \<Rightarrow> (Returns (Some err), put_state v st1 w1)
                   | (None, st1) \<Rightarrow>
                       (case SetLastAccepted blkID st1 of
                          (Some err, st2) \<Rightarrow> (Returns (Some err), put_state v st2 w1)
                        | (None, st2) \<Rightarrow>
                            (let w2 = put_state v st2 w1;
                                 w3 = put_verified v
                                        ((verifiedBlocks (vms w2 v))(ID (blocks w2 a) := None)) w2
                             in case Commit (state (vms w3 v)) of
                                  (r, st3) \<Rightarrow> (Returns r, put_state v st3 w3))))))"

definition Reject :: "addr option \<Rightarrow> world \<Rightarrow> result \<times> world" where
  "Reject b w =
     (case b of
        None \<Rightarrow> (Panics, w)
      | Some a \<Rightarrow>
          (let w1 = SetStatus a Rejected w
           in case vm (blocks w1 a) of
                None \<Rightarrow> (Panics, w1)
              | Some v \<Rightarrow>
                  (case PutBlock (blocks w1 a) (state (vms w1 v)) of
                     (Some err, st1) \<Rightarrow> (Returns (Some err), put_state v st1 w1)
                   | (None, st1) \<Rightarrow>
                       (let w2 = put_state v st1 w1;
                            w3 = put_verified v
                                   ((verifiedBlocks (vms w2 v))(ID (blocks w2 a) := None)) w2
                        in case Commit (state (vms w3 v)) of
                             (r, st3) \<Rightarrow> (Returns r, put_state v st3 w3)))))"

subsection \<open>\<^verbatim>\<open>newTimeBlock\<close>\<close>

text \<open>
  \<^verbatim>\<open>newTimeBlock\<close> fills the four serialised fields; the others keep Go's zero values.
  The timestamp argument is given by its \<^verbatim>\<open>Unix()\<close> seconds.
\<close>

definition newTimeBlock :: "ids_ID \<Rightarrow> 64 word \<Rightarrow> byte list \<Rightarrow> 64 word \<Rightarrow> TimeBlock" where
  "newTimeBlock parentID height data timestamp =
     \<lparr>PrntID = parentID, Hght = height, Tmstmp = timestamp, Dt = data,
      id' = 0, bytes = [], status = Unknown, vm = None\<rparr>"

subsection \<open>Sequences of calls\<close>

text \<open>
  What the consensus engine does to the blocks: a sequence of calls of the four
  operations, each with its arguments (\<^verbatim>\<open>Verify\<close> with the clock's reading at the call).
  A run goes on after a panic, as a Go program that recovers does.
\<close>

datatype call =
    CallInitialize "addr option" "byte list" choices_Status "vaddr option"
  | CallVerify int "addr option"
  | CallAccept "addr option"
  | CallReject "addr option"

fun exec :: "getblock \<Rightarrow> (byte list \<Rightarrow> ids_ID) \<Rightarrow> call \<Rightarrow> world \<Rightarrow> result \<times> world" where
  "exec G H (CallInitialize b bs s v) w = Initialize H b bs s v w"
| "exec G H (CallVerify now b) w = Verify G now b w"
| "exec G H (CallAccept b) w = Accept b w"
| "exec G H (CallReject b) w = Reject b w"

fun run :: "getblock \<Rightarrow> (byte list \<Rightarrow> ids_ID) \<Rightarrow> call list \<Rightarrow> world \<Rightarrow> world" where
  "run G H [] w = w"
| "run G H (c # cs) w = run G H cs (snd (exec G H c w))"

subsection \<open>Properties of a world\<close>

definition terminal :: "choices_Status \<Rightarrow> bool" where
  "terminal s = (s = Accepted \<or> s = Rejected)"

text \<open>No entry of a \<^verbatim>\<open>verifiedBlocks\<close> map points to a block with a terminal status.\<close>

definition no_terminal_pending :: "world \<Rightarrow> bool" where
  "no_terminal_pending w =
     (\<forall>v k a. verifiedBlocks (vms w v) k = Some a \<longrightarrow> \<not> terminal (status (blocks w a)))"

text \<open>
  The invariant behind it: an entry is keyed by the id of its block, it is in the map of
  the block's own VM, and the block's status is not terminal.
\<close>

definition pending_inv :: "world \<Rightarrow> bool" where
  "pending_inv w =
     (\<forall>v k a. verifiedBlocks (vms w v) k = Some a \<longrightarrow>
        id' (blocks w a) = k \<and> vm (blocks w a) = Some v \<and> \<not> terminal (status (blocks w a)))"

definition is_pending :: "world \<Rightarrow> addr \<Rightarrow> bool" where
  "is_pending w a = (\<exists>v k. verifiedBlocks (vms w v) k = Some a)"

text \<open>The next \<open>n\<close> calls of the store of the block's VM succeed.\<close>

definition writes_succeed :: "nat \<Rightarrow> world \<Rightarrow> addr \<Rightarrow> bool" where
  "writes_succeed n w a =
     (case vm (blocks w a) of
        None \<Rightarrow> True
      | Some v \<Rightarrow> list_all (\<lambda>r. r = None) (take n (script (state (vms w v)))))"

text \<open>
  The calls under which the invariant is kept: \<^verbatim>\<open>Initialize\<close> on a block that no map
  holds, \<^verbatim>\<open>Verify\<close> on a block whose status is not terminal, \<^verbatim>\<open>Accept\<close> on a pending
  block when \<^verbatim>\<open>PutBlock\<close> and \<^verbatim>\<open>SetLastAccepted\<close> succeed, \<^verbatim>\<open>Reject\<close> on a pending
  block when \<^verbatim>\<open>PutBlock\<close> succeeds. Nothing is asked of \<^verbatim>\<open>Commit\<close>.
\<close>

fun guard :: "call \<Rightarrow> world \<Rightarrow> bool" where
  "guard (CallInitialize b bs s v) w = (case b of None \<Rightarrow> True | Some a \<Rightarrow> \<not> is_pending w a)"
| "guard (CallVerify now b) w =
     (case b of None \<Rightarrow> True | Some a \<Rightarrow> \<not> terminal (status (blocks w a)))"
| "guard (CallAccept b) w =
     (case b of None \<Rightarrow> True | Some a \<Rightarrow> is_pending w a \<longrightarrow> writes_succeed 2 w a)"
| "guard (CallReject b) w =
     (case b of None \<Rightarrow> True | Some a \<Rightarrow> is_pending w a \<longrightarrow> writes_succeed 1 w a)"

fun admissible :: "getblock \<Rightarrow> (byte list \<Rightarrow> ids_ID) \<Rightarrow> call list \<Rightarrow> world \<Rightarrow> bool" where
  "admissible G H [] w = True"
| "admissible G H (c # cs) w = (guard c w \<and> admissible G H cs (snd (exec G H c w)))"

fun is_SetLastAccepted :: "store_call \<times> error option \<Rightarrow> bool" where
  "is_SetLastAccepted (SetLastAcceptedCall i, r) = True"
| "is_SetLastAccepted (c, r) = False"

text \<open>
  The world after a terminal call on the block at \<open>a\<close> that reached its \<^verbatim>\<open>delete\<close>:
  the status is written, the entry under the block's id is gone from the map of the VM
  \<open>v\<close>, and the store of \<open>v\<close> is \<open>st\<close>.
\<close>

definition retired :: "addr \<Rightarrow> choices_Status \<Rightarrow> vaddr \<Rightarrow> State \<Rightarrow> world \<Rightarrow> world" where
  "retired a s v st w =
     put_state v st
       (put_verified v ((verifiedBlocks (vms w v))(id' (blocks w a) := None)) (SetStatus a s w))"

subsection \<open>A small chain\<close>

text \<open>
  Concrete data on which the theorems below are run: a stand-in for the hash, a genesis
  block with id 5 whose lookup always succeeds, a child and a sibling of it at the
  addresses 2 and 3, and a VM at address 0 whose store has genesis as its last accepted
  block. In \<open>worldF\<close> and \<open>verifiedF\<close> the next call of the store fails.
\<close>

definition toy_hash :: "byte list \<Rightarrow> ids_ID" where
  "toy_hash bs = foldl (\<lambda>h x. 31 * h + ucast x) 7 bs"

definition genesis :: TimeBlock where
  "genesis = (newTimeBlock 0 0 [] 1000)\<lparr>id' := 5, status := Accepted, vm := Some 0\<rparr>"

definition GetBlock_genesis :: getblock where
  "GetBlock_genesis w v i = (if i = id' genesis then Found genesis else LookupFails)"

definition child :: TimeBlock where
  "child = newTimeBlock 5 1 [] 1010"

definition sibling :: TimeBlock where
  "sibling = newTimeBlock 5 1 [] 990"

definition store0 :: State where
  "store0 = \<lparr>lastAccepted = Some 5, calls = [], script = []\<rparr>"

definition worldA :: world where
  "worldA =
     \<lparr>blocks = (\<lambda>_. newTimeBlock 0 0 [] 0)(2 := child, 3 := sibling),
      vms = (\<lambda>_. \<lparr>state = store0, verifiedBlocks = Map.empty\<rparr>)\<rparr>"

definition worldF :: world where
  "worldF = put_state 0 (store0\<lparr>script := [Some (errStore 1)]\<rparr>) worldA"

definition prepare :: "call list" where
  "prepare = [CallInitialize (Some 2) [1, 2] Processing (Some 0), CallVerify 2000 (Some 2)]"

definition initialized :: world where
  "initialized = snd (Initialize toy_hash (Some 2) [1, 2] Processing (Some 0) worldA)"

definition verified :: world where
  "verified = snd (Verify GetBlock_genesis 2000 (Some 2) initialized)"

definition verifiedF :: world where
  "verifiedF = put_state 0 (store0\<lparr>script := [Some (errStore 1)]\<rparr>) verified"

text \<open>
  A parent at the largest \<^verbatim>\<open>uint64\<close> height with id 9, and at address 4 a block of
  height 0 that names it as its parent.
\<close>

definition top_parent :: TimeBlock where
  "top_parent =
     (newTimeBlock 0 18446744073709551615 [] 1000)\<lparr>id' := 9, status := Accepted, vm := Some 0\<rparr>"

definition GetBlock_top :: getblock where
  "GetBlock_top w v i = (if i = id' top_parent then Found top_parent else LookupFails)"

definition wrapped :: world where
  "wrapped =
     snd (Initialize toy_hash (Some 4) [4] Processing (Some 0)
            (put_block 4 (newTimeBlock 9 0 [] 1010) worldA))"

lemmas op_defs = Initialize_def Verify_def Accept_def Reject_def SetStatus_def put_block_def
  put_state_def put_verified_def PutBlock_def SetLastAccepted_def Commit_def store_do_def
  ID_def Parent_def Height_def Timestamp_Unix_def Let_def

lemmas ex_defs = initialized_def verified_def verifiedF_def worldA_def worldF_def store0_def
  child_def sibling_def genesis_def GetBlock_genesis_def toy_hash_def newTimeBlock_def
  prepare_def

lemmas wrap_defs = top_parent_def GetBlock_top_def wrapped_def


section \<open>Reading the world after a write\<close>

lemma blocks_SetStatus [simp]:
  "blocks (SetStatus a s w) = (blocks w)(a := (blocks w a)\<lparr>status := s\<rparr>)"
  and vms_SetStatus [simp]: "vms (SetStatus a s w) = vms w"
  by (simp_all add: SetStatus_def put_block_def)

lemma blocks_put_state [simp]: "blocks (put_state v st w) = blocks w"
  and state_put_state [simp]:
    "state (vms (put_state v st w) u) = (if u = v then st else state (vms w u))"
  and verifiedBlocks_put_state [simp]:
    "verifiedBlocks (vms (put_state v st w) u) = verifiedBlocks (vms w u)"
  by (simp_all add: put_state_def)

lemma blocks_put_verified [simp]: "blocks (put_verified v m w) = blocks w"
  and state_put_verified [simp]: "state (vms (put_verified v m w) u) = state (vms w u)"
  and verifiedBlocks_put_verified [simp]:
    "verifiedBlocks (vms (put_verified v m w) u) = (if u = v then m else verifiedBlocks (vms w u))"
  by (simp_all add: put_verified_def)

lemma retired_simps [simp]:
  "blocks (retired a s v st w) = (blocks w)(a := (blocks w a)\<lparr>status := s\<rparr>)"
  "state (vms (retired a s v st w) u) = (if u = v then st else state (vms w u))"
  "verifiedBlocks (vms (retired a s v st w) u) =
     (if u = v then (verifiedBlocks (vms w v))(id' (blocks w a) := None)
      else verifiedBlocks (vms w u))"
  by (simp_all add: retired_def)

section \<open>The calls of the store\<close>

lemma store_do_calls:
  "store_do c st = (r, st') \<Longrightarrow>
     calls st' = calls st @ [(c, r)] \<and> lastAccepted st' = lastAccepted st"
  by (auto simp add: store_do_def split: list.splits)

lemma PutBlock_calls:
  "PutBlock b st = (r, st') \<Longrightarrow>
     calls st' = calls st @ [(PutBlockCall b, r)] \<and> lastAccepted st' = lastAccepted st"
  unfolding PutBlock_def by (rule store_do_calls)

lemma Commit_calls:
  "Commit st = (r, st') \<Longrightarrow>
     calls st' = calls st @ [(CommitCall, r)] \<and> lastAccepted st' = lastAccepted st"
  unfolding Commit_def by (rule store_do_calls)

lemma SetLastAccepted_calls:
  "SetLastAccepted i st = (r, st') \<Longrightarrow>
     calls st' = calls st @ [(SetLastAcceptedCall i, r)]
     \<and> lastAccepted st' = (if r = None then Some i else lastAccepted st)"
  by (auto simp add: SetLastAccepted_def split: prod.splits option.splits
      dest: store_do_calls)

lemma store_do_ok:
  "list_all (\<lambda>r. r = None) (take (Suc n) (script st)) \<Longrightarrow>
     \<exists>st'. store_do c st = (None, st') \<and> list_all (\<lambda>r. r = None) (take n (script st'))"
  by (cases "script st") (auto simp add: store_do_def)

lemma PutBlock_ok:
  assumes "writes_succeed (Suc n) w a" and "vm (blocks w a) = Some v"
    and "PutBlock blk (state (vms w v)) = (r, st1)"
  shows "r = None \<and> list_all (\<lambda>r. r = None) (take n (script st1))"
  using assms store_do_ok [of n "state (vms w v)" "PutBlockCall blk"]
  by (auto simp add: writes_succeed_def PutBlock_def)

lemma SetLastAccepted_ok:
  assumes "list_all (\<lambda>r. r = None) (take (Suc n) (script st1))"
    and "SetLastAccepted i st1 = (r, st2)"
  shows "r = None"
  using assms store_do_ok [of n st1 "SetLastAcceptedCall i"]
  by (auto simp add: SetLastAccepted_def)

section \<open>Initialize\<close>

lemma Initialize_Some:
  "Initialize H (Some a) bs s v w =
     (Returns None,
      put_block a ((blocks w a)\<lparr>vm := v, bytes := bs, id' := H bs, status := s\<rparr>) w)"
  by (simp add: Initialize_def Let_def)

text \<open>
  C7: the id that \<^verbatim>\<open>Initialize\<close> binds is a function of the bytes argument alone: two
  calls with the same bytes, on any two blocks, in any two worlds, with any status and
  VM arguments, leave the same id in the two blocks; and so does calling it again on the
  block it has just initialised.
\<close>

theorem Initialize_id_pure:
  "id' (blocks (snd (Initialize H (Some a1) bs s1 v1 w1)) a1)
     = id' (blocks (snd (Initialize H (Some a2) bs s2 v2 w2)) a2)
   \<and> id' (blocks (snd (Initialize H (Some a1) bs s2 v2
                         (snd (Initialize H (Some a1) bs s1 v1 w1)))) a1)
     = id' (blocks (snd (Initialize H (Some a1) bs s1 v1 w1)) a1)"
  by (simp add: Initialize_Some put_block_def)

text \<open>
  C10: \<^verbatim>\<open>Initialize\<close> hashes the bytes it is given and compares them with nothing.
  Whatever struct \<open>B\<close> the block is (any parent id, height, timestamp and data), the
  call returns normally, the id becomes the hash of the bytes argument, and the four
  serialised fields stay as they were; so two blocks with different fields get the same
  id from the same bytes.
\<close>

theorem Initialize_no_check:
  "Initialize H (Some a) bs s v (put_block a B w)
     = (Returns None, put_block a (B\<lparr>vm := v, bytes := bs, id' := H bs, status := s\<rparr>) w)
   \<and> id' (blocks (snd (Initialize H (Some a) bs s v (put_block a B w))) a) = H bs
   \<and> PrntID (blocks (snd (Initialize H (Some a) bs s v (put_block a B w))) a) = PrntID B
   \<and> Hght (blocks (snd (Initialize H (Some a) bs s v (put_block a B w))) a) = Hght B
   \<and> Tmstmp (blocks (snd (Initialize H (Some a) bs s v (put_block a B w))) a) = Tmstmp B
   \<and> Dt (blocks (snd (Initialize H (Some a) bs s v (put_block a B w))) a) = Dt B"
  by (simp add: Initialize_Some put_block_def)

section \<open>Verify\<close>

lemma Verify_Found:
  assumes "vm (blocks w a) = Some v"
    and "GetBlock w (Some v) (PrntID (blocks w a)) = Found P"
  shows "Verify GetBlock now (Some a) w =
     (if Hght P + 1 \<noteq> Hght (blocks w a)
        then (Returns (Some (errHeight (Hght P + 1) (Hght (blocks w a)))), w)
      else if sint (Tmstmp (blocks w a)) < sint (Tmstmp P)
        then (Returns (Some errTimestampTooEarly), w)
      else if sint (Tmstmp (blocks w a)) \<ge> now + 3600
        then (Returns (Some errTimestampTooLate), w)
      else (Returns None,
            put_verified v ((verifiedBlocks (vms w v))(id' (blocks w a) \<mapsto> a)) w))"
  using assms
  by (simp add: Verify_def Let_def Parent_def Height_def Timestamp_Unix_def)

lemma Verify_cases:
  "snd (Verify G now b w) = w
   \<or> (\<exists>a v. b = Some a \<and> vm (blocks w a) = Some v
         \<and> snd (Verify G now b w)
             = put_verified v ((verifiedBlocks (vms w v))(id' (blocks w a) \<mapsto> a)) w)"
  by (auto simp add: Verify_def Let_def split: option.splits lookup.splits)

text \<open>
  The expected height is a \<^verbatim>\<open>uint64\<close> sum. Below the largest \<^verbatim>\<open>uint64\<close> it is the
  sum of the numbers.
\<close>

lemma height_no_wrap:
  assumes "unat (Hght P) < 2 ^ 64 - 1"
  shows "(Hght B = Hght P + 1) = (unat (Hght B) = unat (Hght P) + 1)"
proof -
  from assms have "unat (Hght P + 1) = unat (Hght P) + 1"
    by (simp add: unat_word_ariths)
  then show ?thesis
    by (auto simp add: word_unat_eq_iff)
qed

text \<open>
  C1 as stated fails where the sum wraps: the parent has height \<open>2^64 - 1\<close>, the block
  has height 0 and a good timestamp, and \<^verbatim>\<open>Verify\<close> returns nil, although 0 is not the
  parent's height plus one.
\<close>

theorem Verify_height_wrap_counterexample:
  "vm (blocks wrapped 4) = Some 0
   \<and> GetBlock_top wrapped (Some 0) (PrntID (blocks wrapped 4)) = Found top_parent
   \<and> unat (Hght top_parent) = 18446744073709551615
   \<and> unat (Hght (blocks wrapped 4)) = 0
   \<and> fst (Verify GetBlock_top 2000 (Some 4) wrapped) = Returns None
   \<and> unat (Hght (blocks wrapped 4)) \<noteq> unat (Hght top_parent) + 1"
  by (simp add: wrap_defs ex_defs op_defs)

text \<open>
  C1, amended: for a block \<open>B\<close> (at address \<open>a\<close>, initialised with the VM \<open>v\<close>) whose
  parent \<open>P\<close> the lookup returns, \<^verbatim>\<open>Verify\<close> returns nil exactly when the timestamp of
  \<open>B\<close> is not before that of \<open>P\<close>, is less than now plus 3600 seconds, and the height of
  \<open>B\<close> is the height of \<open>P\<close> plus one, the sum taken in \<^verbatim>\<open>uint64\<close> as the code computes
  it; when the height of \<open>P\<close> is below \<open>2^64 - 1\<close>, that is the sum of the numbers.
  Otherwise the error is that of a violated condition: the height error when the height
  is wrong, else \<open>errTimestampTooEarly\<close> when the timestamp is before the parent's, else
  \<open>errTimestampTooLate\<close>.
\<close>

theorem Verify_succeeds_iff:
  assumes "vm (blocks w a) = Some v"
    and "GetBlock w (Some v) (PrntID (blocks w a)) = Found P"
  shows "(fst (Verify GetBlock now (Some a) w) = Returns None
            \<longleftrightarrow> sint (Tmstmp (blocks w a)) \<ge> sint (Tmstmp P)
               \<and> sint (Tmstmp (blocks w a)) < now + 3600
               \<and> Hght (blocks w a) = Hght P + 1)
       \<and> (unat (Hght P) < 2 ^ 64 - 1 \<longrightarrow>
            (fst (Verify GetBlock now (Some a) w) = Returns None
               \<longleftrightarrow> sint (Tmstmp (blocks w a)) \<ge> sint (Tmstmp P)
                  \<and> sint (Tmstmp (blocks w a)) < now + 3600
                  \<and> unat (Hght (blocks w a)) = unat (Hght P) + 1))
       \<and> (Hght (blocks w a) \<noteq> Hght P + 1 \<longrightarrow>
            fst (Verify GetBlock now (Some a) w)
              = Returns (Some (errHeight (Hght P + 1) (Hght (blocks w a)))))
       \<and> (Hght (blocks w a) = Hght P + 1 \<and> sint (Tmstmp (blocks w a)) < sint (Tmstmp P) \<longrightarrow>
            fst (Verify GetBlock now (Some a) w) = Returns (Some errTimestampTooEarly))
       \<and> (Hght (blocks w a) = Hght P + 1 \<and> sint (Tmstmp (blocks w a)) \<ge> sint (Tmstmp P)
            \<and> sint (Tmstmp (blocks w a)) \<ge> now + 3600 \<longrightarrow>
            fst (Verify GetBlock now (Some a) w) = Returns (Some errTimestampTooLate))"
proof -
  note V = Verify_Found [of w a v GetBlock P now, OF assms]
  have main: "fst (Verify GetBlock now (Some a) w) = Returns None
            \<longleftrightarrow> sint (Tmstmp (blocks w a)) \<ge> sint (Tmstmp P)
               \<and> sint (Tmstmp (blocks w a)) < now + 3600
               \<and> Hght (blocks w a) = Hght P + 1"
    using V by auto
  have numbers: "unat (Hght P) < 2 ^ 64 - 1 \<longrightarrow>
            (fst (Verify GetBlock now (Some a) w) = Returns None
               \<longleftrightarrow> sint (Tmstmp (blocks w a)) \<ge> sint (Tmstmp P)
                  \<and> sint (Tmstmp (blocks w a)) < now + 3600
                  \<and> unat (Hght (blocks w a)) = unat (Hght P) + 1)"
    using main height_no_wrap [of P "blocks w a"] by simp
  have errors: "(Hght (blocks w a) \<noteq> Hght P + 1 \<longrightarrow>
            fst (Verify GetBlock now (Some a) w)
              = Returns (Some (errHeight (Hght P + 1) (Hght (blocks w a)))))
       \<and> (Hght (blocks w a) = Hght P + 1 \<and> sint (Tmstmp (blocks w a)) < sint (Tmstmp P) \<longrightarrow>
            fst (Verify GetBlock now (Some a) w) = Returns (Some errTimestampTooEarly))
       \<and> (Hght (blocks w a) = Hght P + 1 \<and> sint (Tmstmp (blocks w a)) \<ge> sint (Tmstmp P)
            \<and> sint (Tmstmp (blocks w a)) \<ge> now + 3600 \<longrightarrow>
            fst (Verify GetBlock now (Some a) w) = Returns (Some errTimestampTooLate))"
    using V by auto
  from main numbers errors show ?thesis by blast
qed

text \<open>
  On the small chain: the child (height 1, timestamp 1010) of genesis (height 0,
  timestamp 1000) verifies at time 2000; the sibling with timestamp 990 is too early.
\<close>

theorem Verify_succeeds_iff_witness:
  "vm (blocks initialized 2) = Some 0
   \<and> GetBlock_genesis initialized (Some 0) (PrntID (blocks initialized 2)) = Found genesis
   \<and> unat (Hght genesis) < 2 ^ 64 - 1
   \<and> unat (Hght (blocks initialized 2)) = unat (Hght genesis) + 1
   \<and> fst (Verify GetBlock_genesis 2000 (Some 2) initialized) = Returns None
   \<and> fst (Verify GetBlock_genesis 2000 (Some 3)
            (snd (Initialize toy_hash (Some 3) [3] Processing (Some 0) initialized)))
       = Returns (Some errTimestampTooEarly)"
proof -
  let ?i3 = "snd (Initialize toy_hash (Some 3) [3] Processing (Some 0) initialized)"
  have h1: "vm (blocks initialized 2) = Some 0"
    by (simp add: ex_defs op_defs)
  have h2: "GetBlock_genesis initialized (Some 0) (PrntID (blocks initialized 2)) = Found genesis"
    by (simp add: ex_defs op_defs)
  have h3: "vm (blocks ?i3 3) = Some 0"
    by (simp add: ex_defs op_defs)
  have h4: "GetBlock_genesis ?i3 (Some 0) (PrntID (blocks ?i3 3)) = Found genesis"
    by (simp add: ex_defs op_defs)
  have f: "sint (Tmstmp (blocks initialized 2)) = 1010" "sint (Tmstmp genesis) = 1000"
     "Hght (blocks initialized 2) = 1" "Hght genesis = 0"
     "sint (Tmstmp (blocks ?i3 3)) = 990" "Hght (blocks ?i3 3) = 1"
    by (simp_all add: ex_defs op_defs)
  from Verify_succeeds_iff [of initialized 2 0 GetBlock_genesis genesis 2000, OF h1 h2]
    Verify_succeeds_iff [of ?i3 3 0 GetBlock_genesis genesis 2000, OF h3 h4] h1 h2 f
  show ?thesis by simp
qed

text \<open>
  C6: when \<^verbatim>\<open>Verify\<close> succeeds on a block, the world changes in one place only: the map
  of the block's VM gets the block under its id, in the place of whatever entry that id
  had. A later call on the same block (at any time \<open>now'\<close>) succeeds exactly when the
  lookup of the parent and the three checks succeed again, and when it succeeds it
  leaves the world as the first call left it.
\<close>

theorem Verify_registers:
  assumes "Verify G now (Some a) w = (Returns None, w')"
  shows "\<exists>v. vm (blocks w a) = Some v
     \<and> w' = put_verified v ((verifiedBlocks (vms w v))(id' (blocks w a) \<mapsto> a)) w
     \<and> verifiedBlocks (vms w' v) (id' (blocks w a)) = Some a
     \<and> (\<forall>now' w''. Verify G now' (Some a) w' = (Returns None, w'') \<longrightarrow> w'' = w')
     \<and> (\<forall>now'. fst (Verify G now' (Some a) w') = Returns None \<longleftrightarrow>
           (\<exists>P. G w' (Some v) (PrntID (blocks w a)) = Found P
              \<and> Hght (blocks w a) = Hght P + 1
              \<and> sint (Tmstmp (blocks w a)) \<ge> sint (Tmstmp P)
              \<and> sint (Tmstmp (blocks w a)) < now' + 3600))"
proof -
  from assms obtain v where v: "vm (blocks w a) = Some v"
    and w': "w' = put_verified v ((verifiedBlocks (vms w v))(id' (blocks w a) \<mapsto> a)) w"
    by (auto simp add: Verify_def Let_def split: lookup.splits if_splits option.splits)
  have again: "\<And>now' w''. Verify G now' (Some a) w' = (Returns None, w'') \<Longrightarrow> w'' = w'"
    unfolding w' using v
    by (auto simp add: Verify_def Let_def put_verified_def
        split: lookup.splits if_splits option.splits)
  have checks: "\<And>now'. fst (Verify G now' (Some a) w') = Returns None \<longleftrightarrow>
           (\<exists>P. G w' (Some v) (PrntID (blocks w a)) = Found P
              \<and> Hght (blocks w a) = Hght P + 1
              \<and> sint (Tmstmp (blocks w a)) \<ge> sint (Tmstmp P)
              \<and> sint (Tmstmp (blocks w a)) < now' + 3600)"
    unfolding w' using v
    by (auto simp add: Verify_def Let_def Parent_def Height_def Timestamp_Unix_def
        split: lookup.splits if_splits option.splits)
  from v w' again checks show ?thesis by simp
qed

theorem Verify_registers_witness:
  "Verify GetBlock_genesis 2000 (Some 2) initialized = (Returns None, verified)
   \<and> verifiedBlocks (vms initialized 0) (toy_hash [1, 2]) = None
   \<and> verifiedBlocks (vms verified 0) (toy_hash [1, 2]) = Some 2
   \<and> Verify GetBlock_genesis 2500 (Some 2) verified = (Returns None, verified)"
proof -
  have h: "Verify GetBlock_genesis 2000 (Some 2) initialized = (Returns None, verified)"
    unfolding verified_def by (rule prod_eqI) (simp_all add: ex_defs op_defs)
  have b: "vm (blocks initialized 2) = Some 0" "id' (blocks initialized 2) = toy_hash [1, 2]"
    "verifiedBlocks (vms initialized 0) (toy_hash [1, 2]) = None"
    by (simp_all add: ex_defs op_defs)
  have "fst (Verify GetBlock_genesis 2500 (Some 2) verified) = Returns None"
    by (simp add: ex_defs op_defs)
  then have e: "Verify GetBlock_genesis 2500 (Some 2) verified
       = (Returns None, snd (Verify GetBlock_genesis 2500 (Some 2) verified))"
    by (simp add: prod_eq_iff)
  from Verify_registers [OF h] b
  have r: "verifiedBlocks (vms verified 0) (toy_hash [1, 2]) = Some 2"
    and idem: "\<forall>now' w''. Verify GetBlock_genesis now' (Some 2) verified = (Returns None, w'')
                 \<longrightarrow> w'' = verified"
    by auto
  from idem e have "snd (Verify GetBlock_genesis 2500 (Some 2) verified) = verified"
    by blast
  with e have "Verify GetBlock_genesis 2500 (Some 2) verified = (Returns None, verified)"
    by simp
  with h b r show ?thesis by simp
qed

section \<open>Accept and Reject\<close>

lemma Accept_Some:
  assumes "vm (blocks w a) = Some v"
  shows "Accept (Some a) w =
     (case PutBlock ((blocks w a)\<lparr>status := Accepted\<rparr>) (state (vms w v)) of
        (Some err, st1) \<Rightarrow> (Returns (Some err), put_state v st1 (SetStatus a Accepted w))
      | (None, st1) \<Rightarrow>
          (case SetLastAccepted (id' (blocks w a)) st1 of
             (Some err, st2) \<Rightarrow> (Returns (Some err), put_state v st2 (SetStatus a Accepted w))
           | (None, st2) \<Rightarrow>
               (case Commit st2 of (r, st3) \<Rightarrow> (Returns r, retired a Accepted v st3 w))))"
  using assms
  by (auto simp add: Accept_def Let_def ID_def retired_def put_state_def put_verified_def
        SetStatus_def put_block_def
      split: option.splits prod.splits)

lemma Reject_Some:
  assumes "vm (blocks w a) = Some v"
  shows "Reject (Some a) w =
     (case PutBlock ((blocks w a)\<lparr>status := Rejected\<rparr>) (state (vms w v)) of
        (Some err, st1) \<Rightarrow> (Returns (Some err), put_state v st1 (SetStatus a Rejected w))
      | (None, st1) \<Rightarrow>
          (case Commit st1 of (r, st3) \<Rightarrow> (Returns r, retired a Rejected v st3 w)))"
  using assms
  by (auto simp add: Reject_def Let_def ID_def retired_def put_state_def put_verified_def
        SetStatus_def put_block_def
      split: option.splits prod.splits)

lemma Accept_nil_vm:
  "vm (blocks w a) = None \<Longrightarrow> Accept (Some a) w = (Panics, SetStatus a Accepted w)"
  by (simp add: Accept_def Let_def SetStatus_def put_block_def)

lemma Reject_nil_vm:
  "vm (blocks w a) = None \<Longrightarrow> Reject (Some a) w = (Panics, SetStatus a Rejected w)"
  by (simp add: Reject_def Let_def SetStatus_def put_block_def)

text \<open>The five ways through \<^verbatim>\<open>Accept\<close> and the four through \<^verbatim>\<open>Reject\<close>.\<close>

lemma Accept_shape:
  "(\<exists>r. Accept b w = (r, w) \<and> r = Panics \<and> b = None)
   \<or> (\<exists>a. b = Some a \<and> vm (blocks w a) = None \<and> Accept b w = (Panics, SetStatus a Accepted w))
   \<or> (\<exists>a v e st1. b = Some a \<and> vm (blocks w a) = Some v
        \<and> PutBlock ((blocks w a)\<lparr>status := Accepted\<rparr>) (state (vms w v)) = (Some e, st1)
        \<and> Accept b w = (Returns (Some e), put_state v st1 (SetStatus a Accepted w)))
   \<or> (\<exists>a v e st1 st2. b = Some a \<and> vm (blocks w a) = Some v
        \<and> PutBlock ((blocks w a)\<lparr>status := Accepted\<rparr>) (state (vms w v)) = (None, st1)
        \<and> SetLastAccepted (id' (blocks w a)) st1 = (Some e, st2)
        \<and> Accept b w = (Returns (Some e), put_state v st2 (SetStatus a Accepted w)))
   \<or> (\<exists>a v st1 st2 r st3. b = Some a \<and> vm (blocks w a) = Some v
        \<and> PutBlock ((blocks w a)\<lparr>status := Accepted\<rparr>) (state (vms w v)) = (None, st1)
        \<and> SetLastAccepted (id' (blocks w a)) st1 = (None, st2)
        \<and> Commit st2 = (r, st3)
        \<and> Accept b w = (Returns r, retired a Accepted v st3 w))"
proof (cases b)
  case None
  then show ?thesis by (simp add: Accept_def)
next
  case (Some a)
  show ?thesis
  proof (cases "vm (blocks w a)")
    case None
    with Some show ?thesis by (simp add: Accept_nil_vm)
  next
    case v: (Some v)
    obtain r1 st1
      where p: "PutBlock ((blocks w a)\<lparr>status := Accepted\<rparr>) (state (vms w v)) = (r1, st1)"
      by (cases "PutBlock ((blocks w a)\<lparr>status := Accepted\<rparr>) (state (vms w v))")
    obtain r2 st2 where s: "SetLastAccepted (id' (blocks w a)) st1 = (r2, st2)"
      by (cases "SetLastAccepted (id' (blocks w a)) st1")
    obtain r3 st3 where c: "Commit st2 = (r3, st3)"
      by (cases "Commit st2")
    from Some v p s c show ?thesis
      by (cases r1; cases r2) (simp_all add: Accept_Some)
  qed
qed

lemma Reject_shape:
  "(\<exists>r. Reject b w = (r, w) \<and> r = Panics \<and> b = None)
   \<or> (\<exists>a. b = Some a \<and> vm (blocks w a) = None \<and> Reject b w = (Panics, SetStatus a Rejected w))
   \<or> (\<exists>a v e st1. b = Some a \<and> vm (blocks w a) = Some v
        \<and> PutBlock ((blocks w a)\<lparr>status := Rejected\<rparr>) (state (vms w v)) = (Some e, st1)
        \<and> Reject b w = (Returns (Some e), put_state v st1 (SetStatus a Rejected w)))
   \<or> (\<exists>a v st1 r st3. b = Some a \<and> vm (blocks w a) = Some v
        \<and> PutBlock ((blocks w a)\<lparr>status := Rejected\<rparr>) (state (vms w v)) = (None, st1)
        \<and> Commit st1 = (r, st3)
        \<and> Reject b w = (Returns r, retired a Rejected v st3 w))"
proof (cases b)
  case None
  then show ?thesis by (simp add: Reject_def)
next
  case (Some a)
  show ?thesis
  proof (cases "vm (blocks w a)")
    case None
    with Some show ?thesis by (simp add: Reject_nil_vm)
  next
    case v: (Some v)
    obtain r1 st1
      where p: "PutBlock ((blocks w a)\<lparr>status := Rejected\<rparr>) (state (vms w v)) = (r1, st1)"
      by (cases "PutBlock ((blocks w a)\<lparr>status := Rejected\<rparr>) (state (vms w v))")
    obtain r3 st3 where c: "Commit st1 = (r3, st3)"
      by (cases "Commit st1")
    from Some v p c show ?thesis
      by (cases r1) (simp_all add: Reject_Some)
  qed
qed

text \<open>
  C2: when \<^verbatim>\<open>Accept\<close> returns nil, the receiver is a block with a VM \<open>v\<close>, and the calls
  it made to the store of \<open>v\<close> are, in this order and all successful, \<^verbatim>\<open>PutBlock\<close> of
  the block with status Accepted, \<^verbatim>\<open>SetLastAccepted\<close> of the block's id, and \<^verbatim>\<open>Commit\<close>:
  the record is written before the pointer, and one commit after both comes before the
  return. The last-accepted pointer of the store is then the block's id, and the map
  \<^verbatim>\<open>verifiedBlocks\<close> of \<open>v\<close> has no entry under that id.
\<close>

theorem Accept_success:
  assumes "Accept b w = (Returns None, w')"
  shows "\<exists>a v. b = Some a \<and> vm (blocks w a) = Some v
      \<and> calls (state (vms w' v))
          = calls (state (vms w v))
            @ [(PutBlockCall ((blocks w a)\<lparr>status := Accepted\<rparr>), None),
               (SetLastAcceptedCall (id' (blocks w a)), None),
               (CommitCall, None)]
      \<and> lastAccepted (state (vms w' v)) = Some (id' (blocks w a))
      \<and> verifiedBlocks (vms w' v) (id' (blocks w a)) = None"
proof (cases b)
  case None
  with assms show ?thesis by (simp add: Accept_def)
next
  case (Some a)
  show ?thesis
  proof (cases "vm (blocks w a)")
    case None
    with assms Some show ?thesis by (simp add: Accept_nil_vm)
  next
    case v: (Some v)
    obtain r1 st1
      where p: "PutBlock ((blocks w a)\<lparr>status := Accepted\<rparr>) (state (vms w v)) = (r1, st1)"
      by (cases "PutBlock ((blocks w a)\<lparr>status := Accepted\<rparr>) (state (vms w v))")
    obtain r2 st2 where s: "SetLastAccepted (id' (blocks w a)) st1 = (r2, st2)"
      by (cases "SetLastAccepted (id' (blocks w a)) st1")
    obtain r3 st3 where c: "Commit st2 = (r3, st3)"
      by (cases "Commit st2")
    from assms Some v p s c have r: "r1 = None" "r2 = None" "r3 = None"
      and w': "w' = retired a Accepted v st3 w"
      by (auto simp add: Accept_Some split: option.splits)
    from PutBlock_calls [OF p] SetLastAccepted_calls [OF s] Commit_calls [OF c] r
    have "calls st3 = calls (state (vms w v))
            @ [(PutBlockCall ((blocks w a)\<lparr>status := Accepted\<rparr>), None),
               (SetLastAcceptedCall (id' (blocks w a)), None),
               (CommitCall, None)]"
      and "lastAccepted st3 = Some (id' (blocks w a))"
      by simp_all
    with Some v w' show ?thesis by simp
  qed
qed

theorem Accept_success_witness:
  "Accept (Some 2) verified = (Returns None, snd (Accept (Some 2) verified))
   \<and> verifiedBlocks (vms verified 0) (toy_hash [1, 2]) = Some 2
   \<and> lastAccepted (state (vms verified 0)) = Some 5
   \<and> lastAccepted (state (vms (snd (Accept (Some 2) verified)) 0)) = Some (toy_hash [1, 2])
   \<and> verifiedBlocks (vms (snd (Accept (Some 2) verified)) 0) (toy_hash [1, 2]) = None"
proof -
  have h: "Accept (Some 2) verified = (Returns None, snd (Accept (Some 2) verified))"
    by (rule prod_eqI) (simp_all add: ex_defs op_defs)
  have b: "vm (blocks verified 2) = Some 0" "id' (blocks verified 2) = toy_hash [1, 2]"
    "verifiedBlocks (vms verified 0) (toy_hash [1, 2]) = Some 2"
    "lastAccepted (state (vms verified 0)) = Some 5"
    by (simp_all add: ex_defs op_defs)
  from Accept_success [OF h] b h show ?thesis by auto
qed

text \<open>
  C5: whatever \<^verbatim>\<open>Reject\<close> does (return nil, return an error, panic), the last-accepted
  pointer of every store is what it was, and the calls it added to a store contain no
  \<^verbatim>\<open>SetLastAccepted\<close>, successful or not. When it returns nil, the receiver is a block
  with a VM, and the map \<^verbatim>\<open>verifiedBlocks\<close> of that VM has no entry under the block's id.
\<close>

theorem Reject_keeps_lastAccepted:
  assumes "Reject b w = (r, w')"
  shows "(\<forall>v. lastAccepted (state (vms w' v)) = lastAccepted (state (vms w v)))
       \<and> (\<forall>v. \<exists>cs. calls (state (vms w' v)) = calls (state (vms w v)) @ cs
                  \<and> \<not> list_ex is_SetLastAccepted cs)
       \<and> (r = Returns None \<longrightarrow>
            (\<exists>a v. b = Some a \<and> vm (blocks w a) = Some v
                \<and> verifiedBlocks (vms w' v) (id' (blocks w a)) = None))"
  using Reject_shape [of b w] assms
  by (elim disjE exE conjE)
     (auto dest!: PutBlock_calls Commit_calls)

theorem Reject_keeps_lastAccepted_witness:
  "Reject (Some 2) verified = (Returns None, snd (Reject (Some 2) verified))
   \<and> verifiedBlocks (vms verified 0) (toy_hash [1, 2]) = Some 2
   \<and> lastAccepted (state (vms verified 0)) = Some 5
   \<and> lastAccepted (state (vms (snd (Reject (Some 2) verified)) 0)) = Some 5
   \<and> verifiedBlocks (vms (snd (Reject (Some 2) verified)) 0) (toy_hash [1, 2]) = None"
proof -
  have h: "Reject (Some 2) verified = (Returns None, snd (Reject (Some 2) verified))"
    by (rule prod_eqI) (simp_all add: ex_defs op_defs)
  have b: "vm (blocks verified 2) = Some 0" "id' (blocks verified 2) = toy_hash [1, 2]"
    "verifiedBlocks (vms verified 0) (toy_hash [1, 2]) = Some 2"
    "lastAccepted (state (vms verified 0)) = Some 5"
    by (simp_all add: ex_defs op_defs)
  from Reject_keeps_lastAccepted [OF h] b h show ?thesis by auto
qed

text \<open>
  C8: when \<^verbatim>\<open>Accept\<close> returns an error, the receiver is a block whose status field is
  Accepted in the world the call leaves; when \<^verbatim>\<open>Reject\<close> returns an error, it is
  Rejected. The write of the status comes first and no path undoes it.
\<close>

theorem terminal_status_before_error:
  "(Accept b w = (Returns (Some e), w') \<longrightarrow>
      (\<exists>a. b = Some a \<and> status (blocks w' a) = Accepted))
   \<and> (Reject b w = (Returns (Some e), w') \<longrightarrow>
      (\<exists>a. b = Some a \<and> status (blocks w' a) = Rejected))"
  using Reject_shape [of b w] Accept_shape [of b w]
  by (elim disjE exE conjE) auto

theorem terminal_status_before_error_witness:
  "Accept (Some 2) verifiedF = (Returns (Some (errStore 1)), snd (Accept (Some 2) verifiedF))
   \<and> status (blocks verifiedF 2) = Processing
   \<and> status (blocks (snd (Accept (Some 2) verifiedF)) 2) = Accepted
   \<and> Reject (Some 2) verifiedF = (Returns (Some (errStore 1)), snd (Reject (Some 2) verifiedF))
   \<and> status (blocks (snd (Reject (Some 2) verifiedF)) 2) = Rejected"
proof -
  have h: "Accept (Some 2) verifiedF
             = (Returns (Some (errStore 1)), snd (Accept (Some 2) verifiedF))"
    by (rule prod_eqI) (simp_all add: ex_defs op_defs)
  have h': "Reject (Some 2) verifiedF
              = (Returns (Some (errStore 1)), snd (Reject (Some 2) verifiedF))"
    by (rule prod_eqI) (simp_all add: ex_defs op_defs)
  have b: "status (blocks verifiedF 2) = Processing"
    by (simp add: ex_defs op_defs)
  from terminal_status_before_error
         [of "Some 2" verifiedF "errStore 1" "snd (Accept (Some 2) verifiedF)"]
    terminal_status_before_error
         [of "Some 2" verifiedF "errStore 1" "snd (Reject (Some 2) verifiedF)"]
    h h' b
  show ?thesis by auto
qed

text \<open>
  C9: on a nil receiver \<^verbatim>\<open>Verify\<close> returns \<open>errBlockNil\<close>, while \<^verbatim>\<open>Accept\<close> and
  \<^verbatim>\<open>Reject\<close>, which have no such guard, panic at their first statement.
\<close>

theorem nil_receiver_panics:
  "Verify G now None w = (Returns (Some errBlockNil), w)
   \<and> Accept None w = (Panics, w)
   \<and> Reject None w = (Panics, w)"
  by (simp add: Verify_def Accept_def Reject_def)

section \<open>The status of a block\<close>

text \<open>
  C4 as stated fails: the verified child is accepted, and a \<^verbatim>\<open>Reject\<close> after that
  returns nil and leaves its status Rejected.
\<close>

theorem status_monotone_counterexample:
  "status (blocks (snd (Accept (Some 2) verified)) 2) = Accepted
   \<and> fst (Reject (Some 2) (snd (Accept (Some 2) verified))) = Returns None
   \<and> status (blocks (snd (Reject (Some 2) (snd (Accept (Some 2) verified)))) 2) = Rejected"
  by (simp add: ex_defs op_defs)

text \<open>
  C4, amended: a block's status is changed by no operation on another block, and by
  \<^verbatim>\<open>Verify\<close> on no block at all: \<^verbatim>\<open>Verify\<close> leaves every status, and \<^verbatim>\<open>Accept\<close>,
  \<^verbatim>\<open>Reject\<close>, \<^verbatim>\<open>Initialize\<close> and \<^verbatim>\<open>SetStatus\<close> leave the status of every block but
  their receiver (the accessors only read). So a terminal status stays under all of
  these. On its receiver \<^verbatim>\<open>Accept\<close> always leaves Accepted and \<^verbatim>\<open>Reject\<close> always leaves
  Rejected, and \<^verbatim>\<open>Initialize\<close> and \<^verbatim>\<open>SetStatus\<close> leave the status they are given,
  whatever the status was: nothing in the code looks at the status it overwrites.
\<close>

theorem status_overwritten:
  "status (blocks (snd (Verify G now b w)) x) = status (blocks w x)
   \<and> (b \<noteq> Some x \<longrightarrow> status (blocks (snd (Accept b w)) x) = status (blocks w x))
   \<and> (b \<noteq> Some x \<longrightarrow> status (blocks (snd (Reject b w)) x) = status (blocks w x))
   \<and> (b \<noteq> Some x \<longrightarrow>
         status (blocks (snd (Initialize H b bs s v w)) x) = status (blocks w x))
   \<and> (a \<noteq> x \<longrightarrow> status (blocks (SetStatus a s w) x) = status (blocks w x))
   \<and> status (blocks (snd (Accept (Some x) w)) x) = Accepted
   \<and> status (blocks (snd (Reject (Some x) w)) x) = Rejected
   \<and> status (blocks (snd (Initialize H (Some x) bs s v w)) x) = s
   \<and> status (blocks (SetStatus x s w) x) = s"
proof -
  have "status (blocks (snd (Verify G now b w)) x) = status (blocks w x)"
    using Verify_cases [of G now b w] by auto
  moreover have "b \<noteq> Some x \<longrightarrow> status (blocks (snd (Accept b w)) x) = status (blocks w x)"
    using Accept_shape [of b w] by (elim disjE exE conjE) auto
  moreover have "b \<noteq> Some x \<longrightarrow> status (blocks (snd (Reject b w)) x) = status (blocks w x)"
    using Reject_shape [of b w] by (elim disjE exE conjE) auto
  moreover have "b \<noteq> Some x \<longrightarrow>
         status (blocks (snd (Initialize H b bs s v w)) x) = status (blocks w x)"
  proof (cases b)
    case None
    then show ?thesis by (simp add: Initialize_def)
  next
    case (Some c)
    then show ?thesis by (simp add: Initialize_Some put_block_def)
  qed
  moreover have "a \<noteq> x \<longrightarrow> status (blocks (SetStatus a s w) x) = status (blocks w x)"
    by simp
  moreover have "status (blocks (snd (Accept (Some x) w)) x) = Accepted"
    using Accept_shape [of "Some x" w] by (elim disjE exE conjE) auto
  moreover have "status (blocks (snd (Reject (Some x) w)) x) = Rejected"
    using Reject_shape [of "Some x" w] by (elim disjE exE conjE) auto
  moreover have "status (blocks (snd (Initialize H (Some x) bs s v w)) x) = s"
    by (simp add: Initialize_Some put_block_def)
  moreover have "status (blocks (SetStatus x s w) x) = s"
    by simp
  ultimately show ?thesis by blast
qed

text \<open>
  On the small chain, after the child at address 2 is accepted: verifying it again,
  rejecting, accepting, initialising or setting the status of the sibling at address 3
  leave the child Accepted.
\<close>

theorem status_overwritten_witness:
  "status (blocks (snd (Accept (Some 2) verified)) 2) = Accepted
   \<and> status (blocks (snd (Verify GetBlock_genesis 2000 (Some 2)
                            (snd (Accept (Some 2) verified)))) 2) = Accepted
   \<and> status (blocks (snd (Reject (Some 3) (snd (Accept (Some 2) verified)))) 2) = Accepted
   \<and> status (blocks (snd (Accept (Some 3) (snd (Accept (Some 2) verified)))) 2) = Accepted
   \<and> status (blocks (snd (Initialize toy_hash (Some 3) [3] Processing (Some 0)
                            (snd (Accept (Some 2) verified)))) 2) = Accepted
   \<and> status (blocks (SetStatus 3 Rejected (snd (Accept (Some 2) verified))) 2) = Accepted"
proof -
  let ?w = "snd (Accept (Some 2) verified)"
  have n: "Some (3::nat) \<noteq> Some 2" "(3::nat) \<noteq> 2" by simp_all
  have acc: "status (blocks ?w 2) = Accepted"
    using status_overwritten
            [of GetBlock_genesis 2000 "Some 2" verified 2 toy_hash "[]" Unknown None 3]
    by simp
  from n acc
    status_overwritten
      [of GetBlock_genesis 2000 "Some 2" ?w 2 toy_hash "[3]" Processing "Some 0" 3]
    status_overwritten
      [of GetBlock_genesis 2000 "Some 3" ?w 2 toy_hash "[3]" Processing "Some 0" 3]
    status_overwritten
      [of GetBlock_genesis 2000 "Some 3" ?w 2 toy_hash "[3]" Rejected "Some 0" 3]
  show ?thesis by simp
qed

section \<open>The entries of \<^verbatim>\<open>verifiedBlocks\<close>\<close>

lemma pending_inv_put_state [simp]: "pending_inv (put_state v st w) = pending_inv w"
  by (auto simp add: pending_inv_def put_state_def)

lemma pending_inv_SetStatus:
  "pending_inv w \<Longrightarrow> \<not> is_pending w a \<Longrightarrow> pending_inv (SetStatus a s w)"
  unfolding pending_inv_def is_pending_def by auto

lemma pending_inv_nil_vm:
  "pending_inv w \<Longrightarrow> vm (blocks w a) = None \<Longrightarrow> \<not> is_pending w a"
  unfolding pending_inv_def is_pending_def by fastforce

lemma pending_inv_retired:
  "pending_inv w \<Longrightarrow> vm (blocks w a) = Some v \<Longrightarrow> pending_inv (retired a s v st w)"
  unfolding pending_inv_def by (auto split: if_splits)

lemma pending_inv_Initialize:
  assumes "pending_inv w" and "guard (CallInitialize b bs s v) w"
  shows "pending_inv (snd (Initialize H b bs s v w))"
proof (cases b)
  case None
  with assms show ?thesis by (simp add: Initialize_def)
next
  case (Some a)
  with assms have "\<not> is_pending w a" by simp
  with assms(1) show ?thesis
    unfolding Some Initialize_Some pending_inv_def put_block_def is_pending_def
    by auto
qed

lemma pending_inv_Verify:
  assumes "pending_inv w" and "guard (CallVerify now b) w"
  shows "pending_inv (snd (Verify G now b w))"
proof -
  from Verify_cases [of G now b w] show ?thesis
  proof
    assume "snd (Verify G now b w) = w"
    with assms show ?thesis by simp
  next
    assume "\<exists>a v. b = Some a \<and> vm (blocks w a) = Some v
         \<and> snd (Verify G now b w)
             = put_verified v ((verifiedBlocks (vms w v))(id' (blocks w a) \<mapsto> a)) w"
    then obtain a v where b: "b = Some a" and v: "vm (blocks w a) = Some v"
      and eq: "snd (Verify G now b w)
             = put_verified v ((verifiedBlocks (vms w v))(id' (blocks w a) \<mapsto> a)) w"
      by blast
    from assms b have nt: "\<not> terminal (status (blocks w a))" by simp
    from assms(1) v nt show ?thesis
      unfolding eq pending_inv_def put_verified_def
      by (auto split: if_splits)
  qed
qed

lemma pending_inv_Accept:
  assumes inv: "pending_inv w" and g: "guard (CallAccept b) w"
  shows "pending_inv (snd (Accept b w))"
  using Accept_shape [of b w]
proof (elim disjE exE conjE)
  fix a v e st1
  assume b: "b = Some a" and v: "vm (blocks w a) = Some v"
    and p: "PutBlock ((blocks w a)\<lparr>status := Accepted\<rparr>) (state (vms w v)) = (Some e, st1)"
    and eq: "Accept b w = (Returns (Some e), put_state v st1 (SetStatus a Accepted w))"
  have "\<not> is_pending w a"
  proof
    assume "is_pending w a"
    with g b have "writes_succeed (Suc (Suc 0)) w a" by (simp add: numeral_2_eq_2)
    from PutBlock_ok [OF this v p] show False by simp
  qed
  with inv eq show ?thesis by (simp add: pending_inv_SetStatus)
next
  fix a v e st1 st2
  assume b: "b = Some a" and v: "vm (blocks w a) = Some v"
    and p: "PutBlock ((blocks w a)\<lparr>status := Accepted\<rparr>) (state (vms w v)) = (None, st1)"
    and s: "SetLastAccepted (id' (blocks w a)) st1 = (Some e, st2)"
    and eq: "Accept b w = (Returns (Some e), put_state v st2 (SetStatus a Accepted w))"
  have "\<not> is_pending w a"
  proof
    assume "is_pending w a"
    with g b have "writes_succeed (Suc (Suc 0)) w a" by (simp add: numeral_2_eq_2)
    from PutBlock_ok [OF this v p]
    have "list_all (\<lambda>r. r = None) (take (Suc 0) (script st1))"
      by simp
    from SetLastAccepted_ok [OF this s] show False by simp
  qed
  with inv eq show ?thesis by (simp add: pending_inv_SetStatus)
qed (use inv in \<open>auto simp add: pending_inv_SetStatus pending_inv_nil_vm pending_inv_retired\<close>)

lemma pending_inv_Reject:
  assumes inv: "pending_inv w" and g: "guard (CallReject b) w"
  shows "pending_inv (snd (Reject b w))"
  using Reject_shape [of b w]
proof (elim disjE exE conjE)
  fix a v e st1
  assume b: "b = Some a" and v: "vm (blocks w a) = Some v"
    and p: "PutBlock ((blocks w a)\<lparr>status := Rejected\<rparr>) (state (vms w v)) = (Some e, st1)"
    and eq: "Reject b w = (Returns (Some e), put_state v st1 (SetStatus a Rejected w))"
  have "\<not> is_pending w a"
  proof
    assume "is_pending w a"
    with g b have "writes_succeed (Suc 0) w a" by simp
    from PutBlock_ok [OF this v p] show False by simp
  qed
  with inv eq show ?thesis by (simp add: pending_inv_SetStatus)
qed (use inv in \<open>auto simp add: pending_inv_SetStatus pending_inv_nil_vm pending_inv_retired\<close>)

lemma pending_inv_exec:
  "pending_inv w \<Longrightarrow> guard c w \<Longrightarrow> pending_inv (snd (exec G H c w))"
  by (cases c)
     (simp_all only: exec.simps pending_inv_Initialize pending_inv_Verify pending_inv_Accept
        pending_inv_Reject)

lemma pending_inv_run:
  "pending_inv w \<Longrightarrow> admissible G H cs w \<Longrightarrow> pending_inv (run G H cs w)"
  by (induction cs arbitrary: w) (simp_all add: pending_inv_exec)

lemma admissible_take:
  "admissible G H cs w \<Longrightarrow> admissible G H (take n cs) w"
proof (induction cs arbitrary: w n)
  case Nil
  then show ?case by simp
next
  case (Cons c cs)
  then show ?case by (cases n) simp_all
qed

text \<open>
  C3 as stated fails, in three ways. On the small chain with a store whose next call
  fails, \<^verbatim>\<open>Accept\<close> of the verified child returns the store's error and leaves the child
  in the map with status Accepted. A block initialised with status Accepted and then
  verified enters the map with that status. A verified block that is initialised again
  with status Rejected stays in the map.
\<close>

theorem pending_terminal_counterexample:
  "fst (Accept (Some 2) (run GetBlock_genesis toy_hash prepare worldF))
     = Returns (Some (errStore 1))
   \<and> \<not> no_terminal_pending
         (run GetBlock_genesis toy_hash (prepare @ [CallAccept (Some 2)]) worldF)
   \<and> \<not> no_terminal_pending
         (run GetBlock_genesis toy_hash
            [CallInitialize (Some 2) [1, 2] Accepted (Some 0), CallVerify 2000 (Some 2)] worldA)
   \<and> \<not> no_terminal_pending
         (run GetBlock_genesis toy_hash
            (prepare @ [CallInitialize (Some 2) [1, 2] Rejected (Some 0)]) worldA)"
proof -
  let ?w1 = "run GetBlock_genesis toy_hash (prepare @ [CallAccept (Some 2)]) worldF"
  let ?w2 = "run GetBlock_genesis toy_hash
            [CallInitialize (Some 2) [1, 2] Accepted (Some 0), CallVerify 2000 (Some 2)] worldA"
  let ?w3 = "run GetBlock_genesis toy_hash
            (prepare @ [CallInitialize (Some 2) [1, 2] Rejected (Some 0)]) worldA"
  have r: "fst (Accept (Some 2) (run GetBlock_genesis toy_hash prepare worldF))
     = Returns (Some (errStore 1))"
    by (simp add: ex_defs op_defs)
  have "verifiedBlocks (vms ?w1 0) 6760 = Some 2" and "status (blocks ?w1 2) = Accepted"
    by (simp_all add: ex_defs op_defs)
  then have 1: "\<not> no_terminal_pending ?w1"
    unfolding no_terminal_pending_def terminal_def by blast
  have "verifiedBlocks (vms ?w2 0) 6760 = Some 2" and "status (blocks ?w2 2) = Accepted"
    by (simp_all add: ex_defs op_defs)
  then have 2: "\<not> no_terminal_pending ?w2"
    unfolding no_terminal_pending_def terminal_def by blast
  have "verifiedBlocks (vms ?w3 0) 6760 = Some 2" and "status (blocks ?w3 2) = Rejected"
    by (simp_all add: ex_defs op_defs)
  then have 3: "\<not> no_terminal_pending ?w3"
    unfolding no_terminal_pending_def terminal_def by blast
  from r 1 2 3 show ?thesis by simp
qed

text \<open>
  C3, amended: start in a world where every entry of a \<^verbatim>\<open>verifiedBlocks\<close> map is keyed
  by its block's id, lies in the map of the block's VM and has a status that is not
  terminal (all maps empty, for one). Run any sequence of \<^verbatim>\<open>Initialize\<close>, \<^verbatim>\<open>Verify\<close>,
  \<^verbatim>\<open>Accept\<close> and \<^verbatim>\<open>Reject\<close> calls in which \<^verbatim>\<open>Initialize\<close> is called on blocks that no
  map holds, \<^verbatim>\<open>Verify\<close> on blocks whose status is not terminal, and \<^verbatim>\<open>Accept\<close> or
  \<^verbatim>\<open>Reject\<close> on a pending block with \<^verbatim>\<open>PutBlock\<close> (and \<^verbatim>\<open>SetLastAccepted\<close>)
  succeeding. Then at every point of the run, also after a failed \<^verbatim>\<open>Commit\<close> and after
  a panic, no entry has status Accepted or Rejected.
\<close>

theorem pending_never_terminal:
  assumes "pending_inv w" and "admissible G H cs w"
  shows "no_terminal_pending (run G H (take n cs) w)"
proof -
  from assms(2) have "admissible G H (take n cs) w"
    by (rule admissible_take)
  with assms(1) have "pending_inv (run G H (take n cs) w)"
    by (rule pending_inv_run)
  then show ?thesis
    by (simp add: pending_inv_def no_terminal_pending_def)
qed

text \<open>
  On the small chain: the child is initialised, verified and accepted; and, with a store
  whose \<^verbatim>\<open>Commit\<close> fails, initialised, verified and rejected.
\<close>

theorem pending_never_terminal_witness:
  "pending_inv worldA
   \<and> admissible GetBlock_genesis toy_hash (prepare @ [CallAccept (Some 2)]) worldA
   \<and> no_terminal_pending
       (run GetBlock_genesis toy_hash (prepare @ [CallAccept (Some 2)]) worldA)
   \<and> pending_inv (put_state 0 (store0\<lparr>script := [None, Some (errStore 1)]\<rparr>) worldA)
   \<and> admissible GetBlock_genesis toy_hash (prepare @ [CallReject (Some 2)])
       (put_state 0 (store0\<lparr>script := [None, Some (errStore 1)]\<rparr>) worldA)
   \<and> fst (Reject (Some 2) (run GetBlock_genesis toy_hash prepare
            (put_state 0 (store0\<lparr>script := [None, Some (errStore 1)]\<rparr>) worldA)))
       = Returns (Some (errStore 1))
   \<and> no_terminal_pending
       (run GetBlock_genesis toy_hash (prepare @ [CallReject (Some 2)])
          (put_state 0 (store0\<lparr>script := [None, Some (errStore 1)]\<rparr>) worldA))"
proof -
  let ?cs = "prepare @ [CallAccept (Some 2)]"
  let ?cs' = "prepare @ [CallReject (Some 2)]"
  let ?w' = "put_state 0 (store0\<lparr>script := [None, Some (errStore 1)]\<rparr>) worldA"
  have i: "pending_inv worldA" "pending_inv ?w'"
    by (simp_all add: pending_inv_def ex_defs op_defs)
  have a: "admissible GetBlock_genesis toy_hash ?cs worldA"
    by (simp add: ex_defs op_defs is_pending_def terminal_def writes_succeed_def)
  have a': "admissible GetBlock_genesis toy_hash ?cs' ?w'"
    by (simp add: ex_defs op_defs is_pending_def terminal_def writes_succeed_def)
  have r: "fst (Reject (Some 2) (run GetBlock_genesis toy_hash prepare ?w'))
       = Returns (Some (errStore 1))"
    by (simp add: ex_defs op_defs)
  have l: "take 3 ?cs = ?cs" "take 3 ?cs' = ?cs'"
    by (simp_all add: prepare_def)
  from pending_never_terminal [OF i(1) a, of 3] pending_never_terminal [OF i(2) a', of 3]
    i a a' r l
  show ?thesis by simp
qed

end
